theory Spec2Isabelle
  imports Main "HOL-Library.Signed_Division" "HOL-Library.Word"
begin

unbundle bit_operations_syntax

section \<open>Fatal outcomes\<close>

text \<open>
  The library is C. A call either returns, or the process stops: on a failed
  \<^verbatim>\<open>assert\<close>, or on behaviour the C standard leaves undefined (an access outside an
  allocated block, a signed overflow, a division by zero). Each of these is a value
  of \<open>fatal\<close>, and a function that can stop returns \<open>fatal + 'a\<close>.
\<close>

datatype fatal = AssertFailed | OutOfBounds | SignedOverflow | DivisionByZero

section \<open>The platform and the allocator\<close>

text \<open>
  The integer types are those of a 32-bit platform (ILP32): \<^verbatim>\<open>int\<close>, \<^verbatim>\<open>long\<close> and
  \<^verbatim>\<open>size_t\<close> are 32 bits wide. A value of type \<^verbatim>\<open>size_t\<close> is a natural number of at
  most \<open>SIZE_MAX\<close>, and arithmetic in \<^verbatim>\<open>size_t\<close> wraps around: \<open>size_t n\<close> is what
  the mathematical result \<open>n\<close> becomes.
\<close>

definition SIZE_MAX :: nat where
  "SIZE_MAX = 4294967295"

definition size_t :: "nat \<Rightarrow> nat" where
  "size_t n = n mod (SIZE_MAX + 1)"

text \<open>
  The type of the elements of an array: \<open>sizeof\<close> is its size in bytes, and
  \<open>blend k src dst\<close> is the object whose first \<open>k\<close> bytes are those of \<open>src\<close> and
  whose other bytes are those of \<open>dst\<close>, which is what a copy of \<open>k\<close> bytes that stops
  inside an element leaves there.
\<close>

record 'a elem_type =
  sizeof :: nat
  blend :: "nat \<Rightarrow> 'a \<Rightarrow> 'a \<Rightarrow> 'a"

text \<open>
  \<^verbatim>\<open>malloc\<close> and \<^verbatim>\<open>realloc\<close> are the environment's: \<open>grants n\<close> tells whether a
  request for \<open>n\<close> bytes succeeds, and \<open>fresh i\<close> is the indeterminate value the
  program finds in slot \<open>i\<close> of a block that it has not written yet.
\<close>

record 'a allocator =
  grants :: "nat \<Rightarrow> bool"
  fresh :: "nat \<Rightarrow> 'a"

text \<open>
  \<^verbatim>\<open>realloc(p, nbytes)\<close>: a block of \<open>nbytes\<close> bytes, which holds
  \<open>nbytes div sizeof\<close> elements: the old ones as far as they fit, then fresh slots.
\<close>

definition realloc :: "'a elem_type \<Rightarrow> 'a allocator \<Rightarrow> 'a list \<Rightarrow> nat \<Rightarrow> 'a list option" where
  "realloc t al block nbytes =
     (if grants al nbytes
      then Some (take (nbytes div sizeof t) block
                 @ map (fresh al) [length block..<nbytes div sizeof t])
      else None)"

text \<open>\<^verbatim>\<open>malloc(n)\<close> for a buffer of bytes: a block of \<open>n\<close> fresh slots.\<close>

definition malloc :: "'a allocator \<Rightarrow> nat \<Rightarrow> 'a list option" where
  "malloc al n = (if grants al n then Some (map (fresh al) [0..<n]) else None)"

text \<open>
  \<^verbatim>\<open>memcpy(dst + off, src, nbytes)\<close> on blocks of elements: \<open>nbytes div sizeof\<close>
  whole elements and, when \<open>nbytes\<close> is not a multiple of \<open>sizeof\<close>, the first
  \<open>nbytes mod sizeof\<close> bytes of one more. Every element touched must lie inside its
  block.
\<close>

definition memcpy :: "'a elem_type \<Rightarrow> 'a list \<Rightarrow> nat \<Rightarrow> 'a list \<Rightarrow> nat \<Rightarrow> 'a list option" where
  "memcpy t dst off src nbytes =
     (let whole = nbytes div sizeof t;
          rest = nbytes mod sizeof t;
          touched = whole + (if rest = 0 then 0 else 1)
      in if touched \<le> length src \<and> off + touched \<le> length dst
         then Some (take off dst @ take whole src
                    @ (if rest = 0 then [] else [blend t rest (src ! whole) (dst ! (off + whole))])
                    @ drop (off + touched) dst)
         else None)"

section \<open>Dynamic array\<close>

text \<open>
  The macros work on any struct with the fields \<^verbatim>\<open>length\<close>, \<^verbatim>\<open>capacity\<close> and
  \<^verbatim>\<open>items\<close>. \<open>items\<close> is the allocated block (the empty list for \<^verbatim>\<open>NULL\<close>). The
  sizes are \<^verbatim>\<open>size_t\<close>: every sum and product of the macros is wrapped by \<open>size_t\<close>.
\<close>

record 'a da =
  length_da :: nat
  capacity :: nat
  items :: "'a list"

definition DAWN_DA_DEFAULT_CAPACITY :: nat where
  "DAWN_DA_DEFAULT_CAPACITY = 16"


text \<open>
  \<^verbatim>\<open>DAWN_DA_APPEND_MANY\<close> pastes the text of its argument \<^verbatim>\<open>elems_count\<close>, without
  parentheses, into three expressions. What the argument means there depends on how it
  is written, so the model takes the three meanings:
  \<^item> \<open>at_test len cap\<close>: whether \<^verbatim>\<open>(da)->length + elems_count >= (da)->capacity\<close> holds;
  \<^item> \<open>at_memcpy s\<close>: the value of \<^verbatim>\<open>elems_count * sizeof *(da)->items\<close>;
  \<^item> \<open>at_add len\<close>: the length after \<^verbatim>\<open>(da)->length += elems_count\<close>.
\<close>

record count_arg =
  at_test :: "nat \<Rightarrow> nat \<Rightarrow> bool"
  at_memcpy :: "nat \<Rightarrow> nat"
  at_add :: "nat \<Rightarrow> nat"

text \<open>
  An argument that is a primary expression of value \<open>n\<close>: an identifier, a constant or
  an expression in parentheses. It means \<open>n\<close> in all three places.
\<close>

definition primary :: "nat \<Rightarrow> count_arg" where
  "primary n =
     \<lparr>at_test = (\<lambda>len cap. size_t (len + n) \<ge> cap),
      at_memcpy = (\<lambda>s. size_t (n * s)),
      at_add = (\<lambda>len. size_t (len + n))\<rparr>"

text \<open>
  An argument written \<^verbatim>\<open>a + b\<close>: the test reads \<^verbatim>\<open>length + a + b >= capacity\<close>, the
  size of the copy reads \<^verbatim>\<open>a + b * sizeof *items\<close>.
\<close>

definition written_sum :: "nat \<Rightarrow> nat \<Rightarrow> count_arg" where
  "written_sum a b =
     \<lparr>at_test = (\<lambda>len cap. size_t (len + a + b) \<ge> cap),
      at_memcpy = (\<lambda>s. size_t (a + size_t (b * s))),
      at_add = (\<lambda>len. size_t (len + size_t (a + b)))\<rparr>"

text \<open>
  An argument written \<^verbatim>\<open>a & b\<close>: the test reads
  \<^verbatim>\<open>length + a & b >= capacity\<close>, which is \<^verbatim>\<open>(length + a) & (b >= capacity)\<close>, and
  the size of the copy reads \<^verbatim>\<open>a & b * sizeof *items\<close>.
\<close>

definition written_and :: "nat \<Rightarrow> nat \<Rightarrow> count_arg" where
  "written_and a b =
     \<lparr>at_test = (\<lambda>len cap. size_t (len + a) AND (if b \<ge> cap then 1 else 0) \<noteq> 0),
      at_memcpy = (\<lambda>s. a AND size_t (b * s)),
      at_add = (\<lambda>len. size_t (len + (a AND b)))\<rparr>"

text \<open>
  The \<^verbatim>\<open>while\<close> loop of \<^verbatim>\<open>DAWN_DA_APPEND_MANY\<close>. It does not end when the capacity
  is 0, so it is partial: \<open>None\<close> is the loop that runs forever.
\<close>

partial_function (option) append_many_loop :: "count_arg \<Rightarrow> nat \<Rightarrow> nat \<Rightarrow> nat option" where
  "append_many_loop cnt len cap =
     (if at_test cnt len cap then append_many_loop cnt len (size_t (cap * 2)) else Some cap)"

declare append_many_loop.simps [code]

definition DAWN_DA_APPEND_MANY ::
  "'a elem_type \<Rightarrow> 'a allocator \<Rightarrow> 'a da \<Rightarrow> 'a list \<Rightarrow> count_arg \<Rightarrow> (fatal + 'a da) option" where
  "DAWN_DA_APPEND_MANY t al d elems elems_count =
     (case (if at_test elems_count (length_da d) (capacity d) then
              (let c = (if capacity d = 0 then DAWN_DA_DEFAULT_CAPACITY else capacity d)
               in case append_many_loop elems_count (length_da d) c of
                    None \<Rightarrow> None
                  | Some c' \<Rightarrow>
                      (case realloc t al (items d) (size_t (c' * sizeof t)) of
                         None \<Rightarrow> Some (Inl AssertFailed)
                       | Some dawn_temp \<Rightarrow> Some (Inr (d\<lparr>capacity := c', items := dawn_temp\<rparr>))))
            else Some (Inr d)) of
        None \<Rightarrow> None
      | Some (Inl e) \<Rightarrow> Some (Inl e)
      | Some (Inr g) \<Rightarrow>
          (case memcpy t (items g) (length_da g) elems (at_memcpy elems_count (sizeof t)) of
             None \<Rightarrow> Some (Inl OutOfBounds)
           | Some m \<Rightarrow>
               Some (Inr (g\<lparr>items := m, length_da := at_add elems_count (length_da g)\<rparr>))))"

text \<open>
  The \<^verbatim>\<open>for\<close> loop of \<^verbatim>\<open>DAWN_DA_PREPEND\<close>, from \<open>i\<close> down to 1:
  \<^verbatim>\<open>items[i] = items[i-1]\<close>.
\<close>

fun prepend_loop :: "nat \<Rightarrow> 'a list \<Rightarrow> fatal + 'a list" where
  "prepend_loop 0 xs = Inr xs"
| "prepend_loop (Suc i) xs =
     (if Suc i < length xs then prepend_loop i (xs[Suc i := xs ! i]) else Inl OutOfBounds)"


text \<open>
  A dynamic array as the data model has it: at most \<open>capacity\<close> elements, in a block
  of \<open>capacity\<close> slots, with sizes that are values of \<^verbatim>\<open>size_t\<close>. The contents are the
  first \<open>length\<close> slots.
\<close>

definition da_wf :: "'a da \<Rightarrow> bool" where
  "da_wf d \<longleftrightarrow>
     length_da d \<le> capacity d \<and> length (items d) = capacity d \<and> capacity d \<le> SIZE_MAX"

definition contents :: "'a da \<Rightarrow> 'a list" where
  "contents d = take (length_da d) (items d)"

definition da_empty :: "'a da" where
  "da_empty = \<lparr>length_da = 0, capacity = 0, items = []\<rparr>"


text \<open>
  The sizes for which no sum or product of an operation wraps around: twice the new
  length, and at least the default capacity, in elements of \<open>sizeof\<close> bytes.
\<close>

definition fits :: "'a elem_type \<Rightarrow> nat \<Rightarrow> bool" where
  "fits t new_length \<longleftrightarrow>
     0 < sizeof t \<and> max DAWN_DA_DEFAULT_CAPACITY (2 * new_length) * sizeof t \<le> SIZE_MAX"

text \<open>Two element types: \<^verbatim>\<open>char\<close>, and a 32-bit integer stored with its low byte first.\<close>

definition char_type :: "8 word elem_type" where
  "char_type = \<lparr>sizeof = 1, blend = (\<lambda>k src dst. if k = 0 then dst else src)\<rparr>"

definition int32_type :: "32 word elem_type" where
  "int32_type =
     \<lparr>sizeof = 4,
      blend = (\<lambda>k src dst. (src AND mask (8 * k)) OR (dst AND NOT (mask (8 * k))))\<rparr>"

section \<open>Static functions\<close>

text \<open>
  \<^verbatim>\<open>int\<close> is 32 bits wide. Its values are modelled as the integers of that range;
  \<^verbatim>\<open>%\<close> truncates towards zero (\<open>smod\<close>) and is undefined for a zero divisor and
  for \<^verbatim>\<open>INT_MIN % -1\<close>; \<^verbatim>\<open>+\<close> is undefined when the sum leaves the range.
\<close>

definition INT_MAX :: int where
  "INT_MAX = 2147483647"

definition INT_MIN :: int where
  "INT_MIN = - 2147483648"

definition is_c_int :: "int \<Rightarrow> bool" where
  "is_c_int x \<longleftrightarrow> INT_MIN \<le> x \<and> x \<le> INT_MAX"

definition c_rem :: "int \<Rightarrow> int \<Rightarrow> fatal + int" where
  "c_rem a b =
     (if b = 0 then Inl DivisionByZero
      else if a = INT_MIN \<and> b = - 1 then Inl SignedOverflow
      else Inr (a smod b))"

definition c_add :: "int \<Rightarrow> int \<Rightarrow> fatal + int" where
  "c_add a b = (if is_c_int (a + b) then Inr (a + b) else Inl SignedOverflow)"

definition dawn_mod :: "int \<Rightarrow> int \<Rightarrow> fatal + int" where
  "dawn_mod x n =
     (case c_rem x n of
        Inl e \<Rightarrow> Inl e
      | Inr r \<Rightarrow>
          (case c_add r n of
             Inl e \<Rightarrow> Inl e
           | Inr s \<Rightarrow> c_rem s n))"

section \<open>A sequence of array operations\<close>






section \<open>Command line arguments\<close>

text \<open>
  \<^verbatim>\<open>*argv\<close> points into an array of pointers: the array and an offset into it.
  \<^verbatim>\<open>*argc\<close> is an \<^verbatim>\<open>int\<close>; the only arithmetic on it is the decrement of a
  positive value, which cannot overflow.
\<close>

record 'a cmdline =
  argc :: int
  argv_array :: "'a list"
  argv :: nat

definition dawn_shift_args :: "'a cmdline \<Rightarrow> fatal + ('a \<times> 'a cmdline)" where
  "dawn_shift_args s =
     (if argc s > 0 then
        (if argv s < length (argv_array s)
         then Inr (argv_array s ! argv s, s\<lparr>argv := argv s + 1, argc := argc s - 1\<rparr>)
         else Inl OutOfBounds)
      else Inl AssertFailed)"

text \<open>A caller that shifts \<open>n\<close> times and collects what the calls return.\<close>

fun shift_times :: "nat \<Rightarrow> 'a cmdline \<Rightarrow> fatal + ('a list \<times> 'a cmdline)" where
  "shift_times 0 s = Inr ([], s)"
| "shift_times (Suc n) s =
     (case dawn_shift_args s of
        Inl e \<Rightarrow> Inl e
      | Inr (a, s') \<Rightarrow>
          (case shift_times n s' of
             Inl e \<Rightarrow> Inl e
           | Inr (as, s'') \<Rightarrow> Inr (a # as, s'')))"

section \<open>String builder and whole files\<close>

type_synonym byte = "8 word"

type_synonym DawnStringBuilder = "byte da"

definition DAWN_SB_APPEND_BUF ::
  "byte allocator \<Rightarrow> DawnStringBuilder \<Rightarrow> byte list \<Rightarrow> nat \<Rightarrow> (fatal + DawnStringBuilder) option" where
  "DAWN_SB_APPEND_BUF al sb buf bufsize =
     DAWN_DA_APPEND_MANY char_type al sb buf (primary bufsize)"

text \<open>
  The files are a map from paths to their bytes. What the C library may answer beyond
  that is the environment's: a call can fail, \<^verbatim>\<open>fread\<close> and \<^verbatim>\<open>fwrite\<close> can transfer
  fewer bytes than asked for, and \<^verbatim>\<open>ferror\<close> tells whether the stream's error flag is
  set. Bytes pass unchanged (no newline translation).

  \<^verbatim>\<open>fwrite\<close> only hands the bytes to the stream: what reaches the file is settled by
  \<^verbatim>\<open>fclose\<close>, whose result \<open>dawn_write_entire_file\<close> does not look at.
  \<open>fclose_stored\<close> is the number of the bytes taken by \<^verbatim>\<open>fwrite\<close> that the file holds
  after the close: all of them on a regular file with room for them, fewer when the
  flush fails (a full disk), none on a device that keeps nothing.

  \<open>fread_count\<close> and \<open>fwrite_count\<close> are the numbers of bytes the stream can transfer:
  \<^verbatim>\<open>fread\<close> and \<^verbatim>\<open>fwrite\<close> return the smaller of that and the number asked for.
  \<^verbatim>\<open>fopen\<close> for reading fails when \<open>fopen_fails\<close> says so or when the path has no
  file; a failing \<^verbatim>\<open>ftell\<close> returns \<open>-1\<close>, a succeeding one the size of the file.
  \<open>malloc_heap\<close> answers the \<^verbatim>\<open>malloc\<close> of the temporary buffer, \<open>realloc_heap\<close> the
  \<^verbatim>\<open>realloc\<close> of the string builder.
\<close>

type_synonym files = "string \<Rightarrow> byte list option"

record read_env =
  fopen_fails :: bool
  fseek_end_fails :: bool
  ftell_fails :: bool
  fseek_set_fails :: bool
  malloc_heap :: "byte allocator"
  fread_count :: nat
  ferror_set :: bool
  realloc_heap :: "byte allocator"

record write_env =
  fopen_w_fails :: bool
  fwrite_count :: nat
  fclose_stored :: nat

text \<open>What a call does that its caller can observe, in order.\<close>

datatype event =
    Fopen string string
  | Fseek_end
  | Ftell
  | Fseek_set
  | Malloc nat
  | Fread nat
  | Ferror
  | Fwrite nat
  | Fclose
  | Free
  | Fprintf_stderr string
  | Perror string

record outcome =
  returned :: bool
  content_after :: "DawnStringBuilder option"
  files_after :: files
  trace :: "event list"

definition dawn_read_entire_file ::
  "read_env \<Rightarrow> files \<Rightarrow> string option \<Rightarrow> DawnStringBuilder option \<Rightarrow> (fatal + outcome) option" where
  "dawn_read_entire_file env fs filepath content =
     (case (filepath, content) of
        (Some path, Some sb) \<Rightarrow>
          (case (if fopen_fails env then None else fs path) of
             None \<Rightarrow>
               Some (Inr \<lparr>returned = False, content_after = Some sb, files_after = fs,
                 trace = [Fopen path ''r'',
                          Fprintf_stderr (''Failed to open file: '' @ path @ [CHR 0x0A])]\<rparr>)
           | Some bytes \<Rightarrow>
               if fseek_end_fails env then
                 Some (Inr \<lparr>returned = False, content_after = Some sb, files_after = fs,
                   trace = [Fopen path ''r'', Fseek_end,
                            Perror ''Failed to get to the end of file'', Fclose]\<rparr>)
               else
                 let f_size = (if ftell_fails env then - 1 else int (length bytes)) in
                 if f_size < 0 then
                   Some (Inr \<lparr>returned = False, content_after = Some sb, files_after = fs,
                     trace = [Fopen path ''r'', Fseek_end, Ftell,
                              Perror ''Failed to get the size of the file'', Fclose]\<rparr>)
                 else if fseek_set_fails env then
                   Some (Inr \<lparr>returned = False, content_after = Some sb, files_after = fs,
                     trace = [Fopen path ''r'', Fseek_end, Ftell, Fseek_set,
                              Perror ''Failed to get to the start of file'', Fclose]\<rparr>)
                 else
                   (case malloc (malloc_heap env) (nat f_size) of
                      None \<Rightarrow>
                        Some (Inr \<lparr>returned = False, content_after = Some sb, files_after = fs,
                          trace = [Fopen path ''r'', Fseek_end, Ftell, Fseek_set,
                                   Malloc (nat f_size),
                                   Fprintf_stderr (''Failed to allocate memory for content from ''
                                                   @ path @ [CHR 0x0A]),
                                   Fclose]\<rparr>)
                    | Some buf0 \<Rightarrow>
                        let read_size = min (fread_count env) (nat f_size);
                            buf = take read_size bytes @ drop read_size buf0
                        in
                        if read_size < nat f_size \<and> ferror_set env then
                          Some (Inr \<lparr>returned = False, content_after = Some sb, files_after = fs,
                            trace = [Fopen path ''r'', Fseek_end, Ftell, Fseek_set,
                                     Malloc (nat f_size), Fread (nat f_size), Ferror,
                                     Fprintf_stderr (''There was an error while reading ''
                                                     @ path @ [CHR 0x0A]),
                                     Fclose, Free]\<rparr>)
                        else
                          (case DAWN_SB_APPEND_BUF (realloc_heap env) sb buf (nat f_size) of
                             None \<Rightarrow> None
                           | Some (Inl e) \<Rightarrow> Some (Inl e)
                           | Some (Inr sb') \<Rightarrow>
                               Some (Inr \<lparr>returned = True, content_after = Some sb',
                                 files_after = fs,
                                 trace = [Fopen path ''r'', Fseek_end, Ftell, Fseek_set,
                                          Malloc (nat f_size), Fread (nat f_size)]
                                         @ (if read_size < nat f_size then [Ferror] else [])
                                         @ [Fclose, Free]\<rparr>))))
      | _ \<Rightarrow>
          Some (Inr \<lparr>returned = False, content_after = content, files_after = fs, trace = []\<rparr>))"

definition dawn_write_entire_file ::
  "write_env \<Rightarrow> files \<Rightarrow> string option \<Rightarrow> DawnStringBuilder option \<Rightarrow> fatal + outcome" where
  "dawn_write_entire_file env fs filepath content =
     (case (filepath, content) of
        (Some path, Some sb) \<Rightarrow>
          if fopen_w_fails env then
            Inr \<lparr>returned = False, content_after = Some sb, files_after = fs,
              trace = [Fopen path ''w+'', Perror ''Failed to open file!'']\<rparr>
          else if length_da sb \<le> length (items sb) then
            (let size = min (fwrite_count env) (length_da sb);
                 fs' = fs(path \<mapsto> take (min (fclose_stored env) size) (items sb))
             in
             if size < length_da sb then
               Inr \<lparr>returned = False, content_after = Some sb, files_after = fs',
                 trace = [Fopen path ''w+'', Fwrite (length_da sb),
                          Fprintf_stderr (''ERROR: There was an error when writing content to ''
                                          @ path @ [CHR 0x0A]),
                          Fclose]\<rparr>
             else
               Inr \<lparr>returned = True, content_after = Some sb, files_after = fs',
                 trace = [Fopen path ''w+'', Fwrite (length_da sb), Fclose]\<rparr>)
          else Inl OutOfBounds
      | _ \<Rightarrow>
          Inr \<lparr>returned = False, content_after = content, files_after = fs, trace = []\<rparr>)"

section \<open>The remainder that is never negative\<close>

lemma smod_nonneg_eq_mod: "0 \<le> a \<Longrightarrow> 0 < n \<Longrightarrow> a smod n = a mod (n::int)"
  by (simp add: signed_modulo_int_def sgn_if)

lemma smod_shift_range: "0 < n \<Longrightarrow> 0 \<le> x smod n + n \<and> x smod n + n < 2 * (n::int)"
proof -
  assume n: "0 < n"
  define r where "r = \<bar>x\<bar> mod n"
  have r: "0 \<le> r" "r < n" using n by (simp_all add: r_def)
  have "x smod n = r \<or> x smod n = - r \<or> x smod n = 0"
    using n by (auto simp: signed_modulo_int_def sgn_if r_def)
  then show ?thesis using r n by auto
qed

lemma smod_shift_cong: "0 < n \<Longrightarrow> (x smod n + n) mod n = x mod (n::int)"
proof -
  assume n: "0 < n"
  have "(x smod n + n) mod n = (x smod n) mod n" by simp
  also have "\<dots> = (x mod n - n * of_bool (sgn x \<noteq> sgn n \<and> \<not> n dvd x)) mod n"
    by (simp only: signed_modulo_int_eq_modulo_int)
  also have "\<dots> = x mod n"
    by (simp add: mod_diff_eq)
  finally show ?thesis .
qed

lemma smod_add_smod: "0 < n \<Longrightarrow> (x smod n + n) smod n = x mod (n::int)"
  using smod_shift_range [of n x] smod_nonneg_eq_mod [of "x smod n + n" n] smod_shift_cong [of n x]
  by simp

text \<open>For a divisor of at most \<open>2 ^ 30\<close> the intermediate sum always fits.\<close>

lemma small_divisor_fits:
  "0 < n \<Longrightarrow> n \<le> 1073741824 \<Longrightarrow> x smod n + n \<le> INT_MAX"
  using smod_shift_range [of n x] by (simp add: INT_MAX_def)

text \<open>
  Claim C5, as stated: for every \<^verbatim>\<open>int\<close> \<open>x\<close> and every \<^verbatim>\<open>int\<close> \<open>n > 0\<close>,
  \<open>dawn_mod x n\<close> is \<open>x mod n\<close>. It fails where \<^verbatim>\<open>(x % n) + n\<close> leaves the range of
  \<^verbatim>\<open>int\<close>: at \<open>x = 1500000000\<close>, \<open>n = 2000000000\<close> the sum is \<open>3500000000\<close>, a signed
  overflow, and the call returns no defined value.
\<close>

theorem dawn_mod_overflow_counterexample:
  "is_c_int 1500000000 \<and> is_c_int 2000000000 \<and> (0::int) < 2000000000
   \<and> dawn_mod 1500000000 2000000000 = Inl SignedOverflow
   \<and> dawn_mod 1500000000 2000000000 \<noteq> Inr (1500000000 mod 2000000000)"
  by (simp add: dawn_mod_def c_rem_def c_add_def is_c_int_def INT_MIN_def INT_MAX_def
      signed_modulo_int_def)

text \<open>
  Claim C5, amended: for every \<^verbatim>\<open>int\<close> \<open>x\<close> and every \<^verbatim>\<open>int\<close> \<open>n > 0\<close> such that
  \<^verbatim>\<open>(x % n) + n\<close> does not exceed \<^verbatim>\<open>INT_MAX\<close>, \<open>dawn_mod x n\<close> returns the mathematical
  \<open>x mod n\<close>, which lies in \<open>[0, n)\<close> whatever the sign of \<open>x\<close>; and
  \<open>dawn_mod (-1) 5 = 4\<close>, \<open>dawn_mod 7 5 = 2\<close>, \<open>dawn_mod 0 5 = 0\<close>.
\<close>

theorem dawn_mod_is_mod:
  assumes "is_c_int x" and "is_c_int n" and "0 < n" and "x smod n + n \<le> INT_MAX"
  shows "dawn_mod x n = Inr (x mod n) \<and> 0 \<le> x mod n \<and> x mod n < n
    \<and> dawn_mod (- 1) 5 = Inr 4 \<and> dawn_mod 7 5 = Inr 2 \<and> dawn_mod 0 5 = Inr 0"
proof -
  have "dawn_mod x n = Inr (x mod n)"
    using assms smod_shift_range [of n x] smod_add_smod [of n x]
    by (simp add: dawn_mod_def c_rem_def c_add_def is_c_int_def INT_MIN_def INT_MAX_def)
  moreover have "0 \<le> x mod n \<and> x mod n < n"
    using assms(3) by simp
  moreover have "dawn_mod (- 1) 5 = Inr 4 \<and> dawn_mod 7 5 = Inr 2 \<and> dawn_mod 0 5 = Inr 0"
    by (simp add: dawn_mod_def c_rem_def c_add_def is_c_int_def INT_MIN_def INT_MAX_def
        signed_modulo_int_def)
  ultimately show ?thesis by simp
qed

theorem dawn_mod_is_mod_witness:
  "is_c_int (- 7) \<and> is_c_int 5 \<and> (0::int) < 5 \<and> (- 7) smod 5 + 5 \<le> INT_MAX
   \<and> dawn_mod (- 7) 5 = Inr 3"
proof -
  have h: "is_c_int (- 7)" "is_c_int 5" "(0::int) < 5" "(- 7) smod 5 + 5 \<le> INT_MAX"
    by (simp_all add: is_c_int_def INT_MIN_def INT_MAX_def signed_modulo_int_def)
  from dawn_mod_is_mod [OF h] h show ?thesis by simp
qed

section \<open>Sizes that do not wrap\<close>

lemma size_t_id: "n \<le> SIZE_MAX \<Longrightarrow> size_t n = n"
  by (simp add: size_t_def)

lemma size_t_le: "size_t n \<le> SIZE_MAX"
  by (simp add: size_t_def less_Suc_eq_le [symmetric])

lemma fits_sizeof: "fits t n \<Longrightarrow> 0 < sizeof t"
  by (simp add: fits_def)

lemma fits_elements:
  assumes "fits t n" and "c \<le> max DAWN_DA_DEFAULT_CAPACITY (2 * n)"
  shows "c * sizeof t \<le> SIZE_MAX" and "c \<le> SIZE_MAX"
proof -
  from assms(1) have s: "0 < sizeof t"
    and b: "max DAWN_DA_DEFAULT_CAPACITY (2 * n) * sizeof t \<le> SIZE_MAX"
    by (simp_all add: fits_def)
  have "c * sizeof t \<le> max DAWN_DA_DEFAULT_CAPACITY (2 * n) * sizeof t"
    using assms(2) by (rule mult_le_mono1)
  then show le: "c * sizeof t \<le> SIZE_MAX" using b by (rule le_trans)
  have "c \<le> c * sizeof t" using s by simp
  then show "c \<le> SIZE_MAX" using le by (rule le_trans)
qed


lemma primary_simps:
  "at_test (primary n) len cap \<longleftrightarrow> cap \<le> size_t (len + n)"
  "at_memcpy (primary n) s = size_t (n * s)"
  "at_add (primary n) len = size_t (len + n)"
  by (simp_all add: primary_def)

section \<open>The loops and the allocator\<close>

lemma append_many_loop_ends:
  "0 < cap \<Longrightarrow> 2 * (len + n) \<le> SIZE_MAX \<Longrightarrow>
   \<exists>k. append_many_loop (primary n) len cap = Some (cap * 2 ^ k) \<and> len + n < cap * 2 ^ k
       \<and> (\<forall>j<k. cap * 2 ^ j \<le> len + n)"
proof (induction "Suc (len + n) - cap" arbitrary: cap rule: less_induct)
  case less
  from less.prems(2) have need: "size_t (len + n) = len + n" by (simp add: size_t_id)
  show ?case
  proof (cases "len + n < cap")
    case True
    then have "append_many_loop (primary n) len cap = Some (cap * 2 ^ 0)"
      by (subst append_many_loop.simps) (simp add: primary_def need)
    with True show ?thesis by (intro exI [of _ 0]) simp
  next
    case False
    with less.prems have dbl: "size_t (cap * 2) = cap * 2" by (simp add: size_t_id)
    from False less.prems have "Suc (len + n) - cap * 2 < Suc (len + n) - cap" "0 < cap * 2"
      by arith+
    from less.hyps [OF this less.prems(2)] obtain k where
      k: "append_many_loop (primary n) len (cap * 2) = Some (cap * 2 * 2 ^ k)"
         "len + n < cap * 2 * 2 ^ k" "\<forall>j<k. cap * 2 * 2 ^ j \<le> len + n"
      by blast
    from False k(1) have "append_many_loop (primary n) len cap = Some (cap * 2 ^ Suc k)"
      by (subst append_many_loop.simps) (simp add: primary_def need dbl mult.assoc)
    moreover have "len + n < cap * 2 ^ Suc k" using k(2) by (simp add: mult.assoc)
    moreover have "\<forall>j<Suc k. cap * 2 ^ j \<le> len + n"
    proof (intro allI impI)
      fix j assume "j < Suc k"
      show "cap * 2 ^ j \<le> len + n"
      proof (cases j)
        case 0
        with False show ?thesis by simp
      next
        case (Suc i)
        with \<open>j < Suc k\<close> k(3) have "cap * 2 * 2 ^ i \<le> len + n" by simp
        with Suc show ?thesis by (simp add: mult.assoc)
      qed
    qed
    ultimately show ?thesis by blast
  qed
qed






lemma prepend_loop_fatal: "prepend_loop i xs = Inl e \<Longrightarrow> e = OutOfBounds"
  by (induction i arbitrary: xs) (auto split: if_splits)

lemma realloc_elements:
  "0 < sizeof t \<Longrightarrow> realloc t al b (c * sizeof t) =
     (if grants al (c * sizeof t) then Some (take c b @ map (fresh al) [length b..<c]) else None)"
  by (simp add: realloc_def)

lemma realloc_length: "0 < sizeof t \<Longrightarrow> realloc t al b (c * sizeof t) = Some m \<Longrightarrow> length m = c"
  by (auto simp: realloc_elements split: if_splits)


lemma realloc_take:
  "0 < sizeof t \<Longrightarrow> realloc t al b (c * sizeof t) = Some m \<Longrightarrow> k \<le> length b \<Longrightarrow> k \<le> c \<Longrightarrow>
   take k m = take k b"
  by (auto simp: realloc_elements min_def split: if_splits)

lemma memcpy_elements:
  "0 < sizeof t \<Longrightarrow> n \<le> length src \<Longrightarrow> off + n \<le> length dst \<Longrightarrow>
   \<exists>m. memcpy t dst off src (n * sizeof t) = Some m \<and> length m = length dst
       \<and> take (off + n) m = take off dst @ take n src"
  by (auto simp: memcpy_def)



lemma append_many_copies:
  assumes wf: "da_wf d" and cnt: "n \<le> length elems" and fits: "fits t (length_da d + n)"
  shows "(length_da d + n < capacity d \<longrightarrow>
      (\<exists>d'. DAWN_DA_APPEND_MANY t al d elems (primary n) = Some (Inr d')
         \<and> length_da d' = length_da d + n
         \<and> contents d' = contents d @ take n elems
         \<and> da_wf d'
         \<and> capacity d' = capacity d))
   \<and> (capacity d \<le> length_da d + n \<longrightarrow>
      (\<exists>k. length_da d + n
              < (if capacity d = 0 then DAWN_DA_DEFAULT_CAPACITY else capacity d) * 2 ^ k
         \<and> (\<forall>j<k. (if capacity d = 0 then DAWN_DA_DEFAULT_CAPACITY else capacity d) * 2 ^ j
                    \<le> length_da d + n)
         \<and> (grants al ((if capacity d = 0 then DAWN_DA_DEFAULT_CAPACITY else capacity d) * 2 ^ k
                        * sizeof t) \<longrightarrow>
              (\<exists>d'. DAWN_DA_APPEND_MANY t al d elems (primary n) = Some (Inr d')
                 \<and> length_da d' = length_da d + n
                 \<and> contents d' = contents d @ take n elems
                 \<and> da_wf d'
                 \<and> capacity d'
                     = (if capacity d = 0 then DAWN_DA_DEFAULT_CAPACITY else capacity d) * 2 ^ k))
         \<and> (\<not> grants al ((if capacity d = 0 then DAWN_DA_DEFAULT_CAPACITY else capacity d) * 2 ^ k
                          * sizeof t) \<longrightarrow>
              DAWN_DA_APPEND_MANY t al d elems (primary n) = Some (Inl AssertFailed))))"
proof (intro conjI impI)
  define need where "need = length_da d + n"
  have s: "0 < sizeof t" using fits by (rule fits_sizeof)
  have need_max: "need \<le> max DAWN_DA_DEFAULT_CAPACITY (2 * need)" by simp
  have n_max: "n \<le> max DAWN_DA_DEFAULT_CAPACITY (2 * need)" by (simp add: need_def)
  note b = fits_elements [OF fits [folded need_def] need_max]
    fits_elements(1) [OF fits [folded need_def] n_max]
  have sum: "size_t (length_da d + n) = length_da d + n"
    using b(2) by (simp add: size_t_id need_def)
  have bytes: "size_t (n * sizeof t) = n * sizeof t" using b(3) by (rule size_t_id)
  assume lt: "length_da d + n < capacity d"
  with wf have room: "length_da d + n \<le> length (items d)" by (simp add: da_wf_def)
  from memcpy_elements [OF s cnt room] obtain m where
    m: "memcpy t (items d) (length_da d) elems (n * sizeof t) = Some m"
       "length m = length (items d)"
       "take (length_da d + n) m = take (length_da d) (items d) @ take n elems"
    by blast
  have "DAWN_DA_APPEND_MANY t al d elems (primary n) =
     Some (Inr (d\<lparr>items := m, length_da := length_da d + n\<rparr>))"
    unfolding DAWN_DA_APPEND_MANY_def using lt m(1) by (simp add: primary_simps sum bytes)
  then show "\<exists>d'. DAWN_DA_APPEND_MANY t al d elems (primary n) = Some (Inr d')
         \<and> length_da d' = length_da d + n
         \<and> contents d' = contents d @ take n elems
         \<and> da_wf d'
         \<and> capacity d' = capacity d"
    using lt m(2,3) wf by (simp add: da_wf_def contents_def)
next
  define need where "need = length_da d + n"
  define seed where "seed = (if capacity d = 0 then DAWN_DA_DEFAULT_CAPACITY else capacity d)"
  have s: "0 < sizeof t" using fits by (rule fits_sizeof)
  have need_max: "need \<le> max DAWN_DA_DEFAULT_CAPACITY (2 * need)" by simp
  have n_max: "n \<le> max DAWN_DA_DEFAULT_CAPACITY (2 * need)" by (simp add: need_def)
  have two_max: "2 * need \<le> max DAWN_DA_DEFAULT_CAPACITY (2 * need)" by simp
  note b = fits_elements [OF fits [folded need_def] need_max]
    fits_elements(1) [OF fits [folded need_def] n_max]
    fits_elements(2) [OF fits [folded need_def] two_max]
  have sum: "size_t (length_da d + n) = need" "size_t need = need"
    using b(2) by (simp_all add: size_t_id need_def)
  have bytes: "size_t (n * sizeof t) = n * sizeof t" using b(3) by (rule size_t_id)
  assume ge: "capacity d \<le> length_da d + n"
  have "0 < seed" by (simp add: seed_def DAWN_DA_DEFAULT_CAPACITY_def)
  from append_many_loop_ends [OF this, of "length_da d" n] b(4) obtain k where
    k: "append_many_loop (primary n) (length_da d) seed = Some (seed * 2 ^ k)"
       "need < seed * 2 ^ k" "\<forall>j<k. seed * 2 ^ j \<le> need"
    by (auto simp: need_def)
  define c where "c = seed * 2 ^ k"
  have c_max: "c \<le> max DAWN_DA_DEFAULT_CAPACITY (2 * need)"
  proof (cases k)
    case 0
    then show ?thesis using ge by (auto simp: c_def seed_def need_def max_def)
  next
    case (Suc i)
    with k(3) have "seed * 2 ^ i \<le> need" by simp
    with Suc show ?thesis by (simp add: c_def max_def)
  qed
  note bc = fits_elements [OF fits [folded need_def] c_max]
  have cbytes: "size_t (c * sizeof t) = c * sizeof t" using bc(1) by (rule size_t_id)
  have cap: "capacity d \<le> c" using ge k(2) by (simp add: c_def need_def)
  have run: "DAWN_DA_APPEND_MANY t al d elems (primary n) =
     (case realloc t al (items d) (c * sizeof t) of
        None \<Rightarrow> Some (Inl AssertFailed)
      | Some r \<Rightarrow>
          (case memcpy t r (length_da d) elems (n * sizeof t) of
             None \<Rightarrow> Some (Inl OutOfBounds)
           | Some m \<Rightarrow> Some (Inr (d\<lparr>capacity := c, items := m, length_da := need\<rparr>))))"
    unfolding DAWN_DA_APPEND_MANY_def Let_def seed_def [symmetric]
    using ge k(1)
    by (simp add: primary_simps sum bytes need_def [symmetric] c_def [symmetric] cbytes
        split: option.splits)
  have granted: "\<exists>d'. DAWN_DA_APPEND_MANY t al d elems (primary n) = Some (Inr d')
         \<and> length_da d' = length_da d + n
         \<and> contents d' = contents d @ take n elems
         \<and> da_wf d'
         \<and> capacity d' = c" if g: "grants al (c * sizeof t)"
  proof -
    from g obtain r where r: "realloc t al (items d) (c * sizeof t) = Some r"
      by (simp add: realloc_def)
    have lr: "length r = c" using s r by (rule realloc_length)
    have room: "length_da d + n \<le> length r" using k(2) lr by (simp add: c_def need_def)
    from memcpy_elements [OF s cnt room] obtain m where
      m: "memcpy t r (length_da d) elems (n * sizeof t) = Some m"
         "length m = length r"
         "take (length_da d + n) m = take (length_da d) r @ take n elems"
      by blast
    have tl: "take (length_da d) r = take (length_da d) (items d)"
      using realloc_take [OF s r, of "length_da d"] wf cap by (simp add: da_wf_def)
    from run r m(1) have "DAWN_DA_APPEND_MANY t al d elems (primary n) =
        Some (Inr (d\<lparr>capacity := c, items := m, length_da := need\<rparr>))"
      by simp
    then show ?thesis
      using m(2,3) lr tl k(2) bc(2) by (simp add: da_wf_def contents_def need_def c_def)
  qed
  have refused: "DAWN_DA_APPEND_MANY t al d elems (primary n) = Some (Inl AssertFailed)"
    if "\<not> grants al (c * sizeof t)"
    using that run by (simp add: realloc_def)
  show "\<exists>k. length_da d + n
              < (if capacity d = 0 then DAWN_DA_DEFAULT_CAPACITY else capacity d) * 2 ^ k
         \<and> (\<forall>j<k. (if capacity d = 0 then DAWN_DA_DEFAULT_CAPACITY else capacity d) * 2 ^ j
                    \<le> length_da d + n)
         \<and> (grants al ((if capacity d = 0 then DAWN_DA_DEFAULT_CAPACITY else capacity d) * 2 ^ k
                        * sizeof t) \<longrightarrow>
              (\<exists>d'. DAWN_DA_APPEND_MANY t al d elems (primary n) = Some (Inr d')
                 \<and> length_da d' = length_da d + n
                 \<and> contents d' = contents d @ take n elems
                 \<and> da_wf d'
                 \<and> capacity d'
                     = (if capacity d = 0 then DAWN_DA_DEFAULT_CAPACITY else capacity d) * 2 ^ k))
         \<and> (\<not> grants al ((if capacity d = 0 then DAWN_DA_DEFAULT_CAPACITY else capacity d) * 2 ^ k
                          * sizeof t) \<longrightarrow>
              DAWN_DA_APPEND_MANY t al d elems (primary n) = Some (Inl AssertFailed))"
    unfolding seed_def [symmetric]
    using k(2,3) granted refused
    by (intro exI [of _ k]) (simp add: need_def c_def)
qed


lemma append_many_granted:
  assumes wf: "da_wf d" and cnt: "n \<le> length elems" and fits: "fits t (length_da d + n)"
    and g: "\<forall>b. grants al b"
  shows "\<exists>d'. DAWN_DA_APPEND_MANY t al d elems (primary n) = Some (Inr d')"
  using append_many_copies [OF wf cnt fits, of al] g
  by (cases "length_da d + n < capacity d") (auto simp: not_less)




section \<open>The array operations\<close>




text \<open>
  A count written \<^verbatim>\<open>1 + 2\<close> for three 32-bit integers: the copy is of \<^verbatim>\<open>1 + 2 * 4\<close>
  bytes, two elements and the first byte of the third.
\<close>

lemma append_many_written_sum:
  "DAWN_DA_APPEND_MANY int32_type \<lparr>grants = (\<lambda>b. True), fresh = (\<lambda>i. - 1)\<rparr>
     \<lparr>length_da = 2, capacity = 8, items = [7, 8, - 1, - 1, - 1, - 1, - 1, - 1]\<rparr> [1, 2, 3]
     (written_sum 1 2)
   = Some (Inr \<lparr>length_da = 5, capacity = 8, items = [7, 8, 1, 2, - 253, - 1, - 1, - 1]\<rparr>)"
  by (simp add: DAWN_DA_APPEND_MANY_def memcpy_def written_sum_def size_t_def
      SIZE_MAX_def int32_type_def Let_def mask_eq_exp_minus_1)

text \<open>
  A count written \<^verbatim>\<open>7 & 3\<close> for an array of 32-bit integers with two free slots: the
  test is false, so the array does not grow; the copy is of \<^verbatim>\<open>7 & 12\<close> bytes, one
  element; and the length becomes 5 for a capacity of 4.
\<close>

lemma append_many_written_and:
  "DAWN_DA_APPEND_MANY int32_type \<lparr>grants = (\<lambda>b. True), fresh = (\<lambda>i. - 1)\<rparr>
     \<lparr>length_da = 2, capacity = 4, items = [7, 8, - 1, - 1]\<rparr> [1, 2, 3, 4, 5, 6, 7]
     (written_and 7 3)
   = Some (Inr \<lparr>length_da = 5, capacity = 4, items = [7, 8, 1, - 1]\<rparr>)"
  by (simp add: DAWN_DA_APPEND_MANY_def memcpy_def written_and_def size_t_def
      SIZE_MAX_def int32_type_def Let_def)




section \<open>Sequences of operations\<close>
















section \<open>Shifting arguments\<close>

lemma shift_times_in_order:
  "argc s = int n \<Longrightarrow> argv s + n \<le> length (argv_array s) \<Longrightarrow>
   shift_times n s = Inr (take n (drop (argv s) (argv_array s)), s\<lparr>argv := argv s + n, argc := 0\<rparr>)"
proof (induction n arbitrary: s)
  case 0
  then show ?case by simp
next
  case (Suc n)
  let ?s' = "s\<lparr>argv := argv s + 1, argc := argc s - 1\<rparr>"
  from Suc.prems have step: "dawn_shift_args s = Inr (argv_array s ! argv s, ?s')"
    by (simp add: dawn_shift_args_def)
  have "argc ?s' = int n" "argv ?s' + n \<le> length (argv_array ?s')"
    using Suc.prems by simp_all
  from Suc.IH [OF this] have
    "shift_times n ?s' = Inr (take n (drop (Suc (argv s)) (argv_array s)),
                              s\<lparr>argv := argv s + Suc n, argc := 0\<rparr>)"
    by simp
  moreover have "take (Suc n) (drop (argv s) (argv_array s)) =
      argv_array s ! argv s # take n (drop (Suc (argv s)) (argv_array s))"
    using Suc.prems by (simp add: Cons_nth_drop_Suc [symmetric])
  ultimately show ?case using step by simp
qed

text \<open>
  Claim C8: for every \<open>argc > 0\<close> and every array that holds \<open>argc\<close> pointers from
  \<^verbatim>\<open>*argv\<close> on, \<open>dawn_shift_args\<close> returns the first of them, advances \<^verbatim>\<open>*argv\<close> by
  one and decrements \<^verbatim>\<open>*argc\<close> by one; \<open>n\<close> calls over an array of \<open>n\<close> arguments return
  the arguments in their order and leave the count 0; with \<open>argc = 0\<close> (or less) the
  assertion fails.
\<close>

theorem shift_args_correct:
  "(0 < argc s \<and> argv s + nat (argc s) \<le> length (argv_array s) \<longrightarrow>
      dawn_shift_args s = Inr (argv_array s ! argv s, s\<lparr>argv := argv s + 1, argc := argc s - 1\<rparr>))
   \<and> shift_times (length args) \<lparr>argc = int (length args), argv_array = args, argv = 0\<rparr>
       = Inr (args, \<lparr>argc = 0, argv_array = args, argv = length args\<rparr>)
   \<and> (argc s \<le> 0 \<longrightarrow> dawn_shift_args s = Inl AssertFailed)"
proof (intro conjI impI)
  assume "0 < argc s \<and> argv s + nat (argc s) \<le> length (argv_array s)"
  then show "dawn_shift_args s = Inr (argv_array s ! argv s, s\<lparr>argv := argv s + 1, argc := argc s - 1\<rparr>)"
    by (auto simp: dawn_shift_args_def)
next
  let ?s = "\<lparr>argc = int (length args), argv_array = args, argv = 0\<rparr>"
  have "argc ?s = int (length args)" "argv ?s + length args \<le> length (argv_array ?s)" by simp_all
  from shift_times_in_order [OF this]
  show "shift_times (length args) ?s = Inr (args, \<lparr>argc = 0, argv_array = args, argv = length args\<rparr>)"
    by simp
next
  assume "argc s \<le> 0"
  then show "dawn_shift_args s = Inl AssertFailed" by (simp add: dawn_shift_args_def)
qed

theorem shift_args_correct_witness:
  "(0::int) < argc \<lparr>argc = 3, argv_array = [''a'', ''b'', ''c''], argv = 0\<rparr>
   \<and> dawn_shift_args \<lparr>argc = 3, argv_array = [''a'', ''b'', ''c''], argv = 0\<rparr>
       = Inr (''a'', \<lparr>argc = 2, argv_array = [''a'', ''b'', ''c''], argv = 1\<rparr>)
   \<and> shift_times 3 \<lparr>argc = 3, argv_array = [''a'', ''b'', ''c''], argv = 0\<rparr>
       = Inr ([''a'', ''b'', ''c''], \<lparr>argc = 0, argv_array = [''a'', ''b'', ''c''], argv = 3\<rparr>)
   \<and> dawn_shift_args \<lparr>argc = 0, argv_array = [''a'', ''b'', ''c''], argv = 3\<rparr> = Inl AssertFailed"
proof -
  let ?args = "[''a'', ''b'', ''c'']"
  let ?s = "\<lparr>argc = 3, argv_array = ?args, argv = 0\<rparr>"
  let ?e = "\<lparr>argc = 0, argv_array = ?args, argv = 3\<rparr>"
  have h: "0 < argc ?s \<and> argv ?s + nat (argc ?s) \<le> length (argv_array ?s)" by simp
  have z: "argc ?e \<le> 0" by simp
  have len: "length ?args = 3" by simp
  from shift_args_correct [of ?s ?args] h
  have a: "dawn_shift_args ?s = Inr (''a'', \<lparr>argc = 2, argv_array = ?args, argv = 1\<rparr>)"
    by simp
  from shift_args_correct [of ?s ?args]
  have "shift_times (length ?args) \<lparr>argc = int (length ?args), argv_array = ?args, argv = 0\<rparr>
       = Inr (?args, \<lparr>argc = 0, argv_array = ?args, argv = length ?args\<rparr>)"
    by (rule conjunct1 [OF conjunct2])
  then have b: "shift_times 3 ?s = Inr (?args, ?e)"
    by (simp only: len of_nat_numeral)
  from shift_args_correct [of ?e ?args] z
  have c: "dawn_shift_args ?e = Inl AssertFailed" by simp
  from a b c show ?thesis by simp
qed

section \<open>Whole files\<close>

text \<open>
  What \<open>DAWN_DA_APPEND_MANY\<close> has done when it has returned, for sizes that are values of
  \<^verbatim>\<open>size_t\<close>: had the block been too small, the copy would have left it.
\<close>

lemma append_many_appended:
  assumes wf: "da_wf d" and s: "0 < sizeof t"
    and sum: "length_da d + n \<le> SIZE_MAX" and bytes: "n * sizeof t \<le> SIZE_MAX"
    and run: "DAWN_DA_APPEND_MANY t al d elems (primary n) = Some (Inr d')"
  shows "length_da d' = length_da d + n \<and> contents d' = contents d @ take n elems"
proof -
  have st: "size_t (length_da d + n) = length_da d + n" using sum by (rule size_t_id)
  have sb: "size_t (n * sizeof t) = n * sizeof t" using bytes by (rule size_t_id)
  from wf have len: "length_da d \<le> length (items d)" by (simp add: da_wf_def)
  have copied: "length_da d' = length_da d + n \<and> contents d' = contents d @ take n elems"
    if m: "memcpy t r (length_da d) elems (n * sizeof t) = Some m"
      and d': "items d' = m" "length_da d' = length_da d + n"
      and keep: "take (length_da d) r = take (length_da d) (items d)"
    for r m
  proof -
    from m s have room: "n \<le> length elems" "length_da d + n \<le> length r"
      and m_eq: "m = take (length_da d) r @ take n elems @ drop (length_da d + n) r"
      by (auto simp: memcpy_def split: if_splits)
    have "take (length_da d + n) m = take (length_da d) r @ take n elems"
      using room by (simp add: m_eq)
    with d' keep show ?thesis by (simp add: contents_def)
  qed
  show ?thesis
  proof (cases "at_test (primary n) (length_da d) (capacity d)")
    case False
    with run obtain m where
      "memcpy t (items d) (length_da d) elems (n * sizeof t) = Some m"
      "d' = d\<lparr>items := m, length_da := length_da d + n\<rparr>"
      by (auto simp: DAWN_DA_APPEND_MANY_def primary_simps st sb split: option.splits)
    then show ?thesis by (intro copied [of "items d" m]) simp_all
  next
    case True
    with run obtain c r m where
      r: "realloc t al (items d) (size_t (c * sizeof t)) = Some r"
      and m: "memcpy t r (length_da d) elems (n * sizeof t) = Some m"
      and d': "d' = d\<lparr>capacity := c, items := m, length_da := length_da d + n\<rparr>"
      by (auto simp: DAWN_DA_APPEND_MANY_def Let_def primary_simps st sb split: option.splits)
    from m s have room: "length_da d + n \<le> length r"
      by (auto simp: memcpy_def split: if_splits)
    define q where "q = size_t (c * sizeof t) div sizeof t"
    from r have r_eq: "r = take q (items d) @ map (fresh al) [length (items d)..<q]"
      by (auto simp: realloc_def q_def split: if_splits)
    then have "length r = q" by auto
    with room have "length_da d \<le> q" by simp
    with len have "take (length_da d) r = take (length_da d) (items d)"
      by (simp add: r_eq)
    with m d' show ?thesis by (intro copied [of r m]) simp_all
  qed
qed

lemma read_false_unchanged:
  "dawn_read_entire_file renv fs (Some path) (Some sb) = Some (Inr out) \<Longrightarrow>
   \<not> returned out \<Longrightarrow> content_after out = Some sb"
  by (auto simp: dawn_read_entire_file_def Let_def split: if_splits option.splits sum.splits)

lemma read_fails_no_file:
  "fopen_fails renv \<or> fs path = None \<Longrightarrow>
   \<exists>out. dawn_read_entire_file renv fs (Some path) (Some sb) = Some (Inr out)
      \<and> \<not> returned out \<and> content_after out = Some sb"
  by (auto simp: dawn_read_entire_file_def)

lemma read_fails_later:
  "\<not> fopen_fails renv \<Longrightarrow> fs path = Some bytes \<Longrightarrow>
   fseek_end_fails renv \<or> ftell_fails renv \<or> fseek_set_fails renv
     \<or> \<not> grants (malloc_heap renv) (length bytes)
     \<or> (fread_count renv < length bytes \<and> ferror_set renv) \<Longrightarrow>
   \<exists>out. dawn_read_entire_file renv fs (Some path) (Some sb) = Some (Inr out)
      \<and> \<not> returned out \<and> content_after out = Some sb"
  by (auto simp: dawn_read_entire_file_def Let_def malloc_def)

text \<open>A write that returns true leaves in the file what the close has stored.\<close>

lemma write_true_stores:
  "dawn_write_entire_file wenv fs (Some path) (Some sb) = Inr wout \<Longrightarrow> returned wout \<Longrightarrow>
   files_after wout = fs(path \<mapsto> take (min (fclose_stored wenv) (length_da sb)) (items sb))
   \<and> length_da sb \<le> length (items sb)"
  by (auto simp: dawn_write_entire_file_def Let_def min_def split: if_splits)

text \<open>What a call that returns true has appended: the whole temporary buffer.\<close>

lemma read_true_appends:
  assumes run: "dawn_read_entire_file renv fs (Some path) (Some sb) = Some (Inr out)"
    and ret: "returned out" and fl: "fs path = Some bytes" and wf: "da_wf sb"
    and sum: "length_da sb + length bytes \<le> SIZE_MAX"
  shows "\<exists>sb'. content_after out = Some sb'
     \<and> length_da sb' = length_da sb + length bytes
     \<and> contents sb' = contents sb
          @ take (fread_count renv) bytes
          @ drop (fread_count renv) (map (fresh (malloc_heap renv)) [0..<length bytes])"
proof -
  define n where "n = length bytes"
  define k where "k = min (fread_count renv) n"
  define buf0 where "buf0 = map (fresh (malloc_heap renv)) [0..<n]"
  define buf where "buf = take k bytes @ drop k buf0"
  have lbuf: "length buf = n" by (simp add: buf_def buf0_def k_def n_def)
  from run ret fl obtain sb' where
    app: "DAWN_SB_APPEND_BUF (realloc_heap renv) sb buf n = Some (Inr sb')"
    and out: "content_after out = Some sb'"
    by (auto simp: dawn_read_entire_file_def Let_def malloc_def n_def k_def buf0_def buf_def
        split: if_splits option.splits sum.splits)
  from app have many:
    "DAWN_DA_APPEND_MANY char_type (realloc_heap renv) sb buf (primary n) = Some (Inr sb')"
    by (simp add: DAWN_SB_APPEND_BUF_def)
  have s: "0 < sizeof char_type" by (simp add: char_type_def)
  have bytes: "n * sizeof char_type \<le> SIZE_MAX" using sum by (simp add: char_type_def n_def)
  from append_many_appended [OF wf s sum [folded n_def] bytes many] lbuf
  have "length_da sb' = length_da sb + n" "contents sb' = contents sb @ buf" by simp_all
  moreover have "buf = take (fread_count renv) bytes
          @ drop (fread_count renv) (map (fresh (malloc_heap renv)) [0..<length bytes])"
    by (simp add: buf_def k_def buf0_def n_def min_def)
  ultimately show ?thesis using out by (simp add: n_def)
qed

text \<open>
  When no call of the C library fails, the close stores every byte and the read is
  complete, both functions return true.
\<close>

lemma read_returns_true:
  assumes fl: "fs path = Some bytes" and sb2: "da_wf sb2"
    and fits: "fits char_type (length_da sb2 + length bytes)"
    and r: "\<not> fopen_fails renv" "\<not> fseek_end_fails renv" "\<not> ftell_fails renv"
      "\<not> fseek_set_fails renv" "grants (malloc_heap renv) (length bytes)"
      "\<not> (fread_count renv < length bytes \<and> ferror_set renv)"
      "\<forall>n. grants (realloc_heap renv) n"
  shows "\<exists>rout. dawn_read_entire_file renv fs (Some path) (Some sb2) = Some (Inr rout)
     \<and> returned rout"
proof -
  define n where "n = length bytes"
  define k where "k = min (fread_count renv) n"
  define buf where "buf = take k bytes @ drop k (map (fresh (malloc_heap renv)) [0..<n])"
  have lbuf: "n \<le> length buf" by (simp add: buf_def n_def k_def)
  from append_many_granted [OF sb2 lbuf fits [folded n_def] r(7)] obtain sb' where
    app: "DAWN_SB_APPEND_BUF (realloc_heap renv) sb2 buf n = Some (Inr sb')"
    by (auto simp: DAWN_SB_APPEND_BUF_def)
  have kn: "k < n \<longleftrightarrow> fread_count renv < n" by (auto simp: k_def min_def)
  have "dawn_read_entire_file renv fs (Some path) (Some sb2) =
     Some (Inr \<lparr>returned = True, content_after = Some sb', files_after = fs,
       trace = [Fopen path ''r'', Fseek_end, Ftell, Fseek_set, Malloc n, Fread n]
               @ (if k < n then [Ferror] else []) @ [Fclose, Free]\<rparr>)"
    unfolding dawn_read_entire_file_def malloc_def Let_def
    using fl r(1-6) app kn
    by (simp add: n_def [symmetric] k_def [symmetric] buf_def [symmetric])
  then show ?thesis by simp
qed

lemma round_trip_returns:
  assumes sb: "length_da sb \<le> length (items sb)" and sb2: "da_wf sb2"
    and fits: "fits char_type (length_da sb2 + length_da sb)"
    and w: "\<not> fopen_w_fails wenv" "length_da sb \<le> fwrite_count wenv"
      "length_da sb \<le> fclose_stored wenv"
    and r: "\<not> fopen_fails renv" "\<not> fseek_end_fails renv" "\<not> ftell_fails renv"
      "\<not> fseek_set_fails renv" "grants (malloc_heap renv) (length_da sb)"
      "length_da sb \<le> fread_count renv" "\<forall>n. grants (realloc_heap renv) n"
  shows "\<exists>wout rout. dawn_write_entire_file wenv fs (Some path) (Some sb) = Inr wout
     \<and> returned wout
     \<and> dawn_read_entire_file renv (files_after wout) (Some path) (Some sb2) = Some (Inr rout)
     \<and> returned rout"
proof -
  define fs' where "fs' = fs(path \<mapsto> take (length_da sb) (items sb))"
  define wout where "wout = \<lparr>returned = True, content_after = Some sb, files_after = fs',
    trace = [Fopen path ''w+'', Fwrite (length_da sb), Fclose]\<rparr>"
  have wr: "dawn_write_entire_file wenv fs (Some path) (Some sb) = Inr wout"
    using sb w by (simp add: dawn_write_entire_file_def Let_def min_def wout_def fs'_def)
  have fl: "fs' path = Some (take (length_da sb) (items sb))" by (simp add: fs'_def)
  have len: "length (take (length_da sb) (items sb)) = length_da sb" using sb by simp
  from read_returns_true [of fs' path "take (length_da sb) (items sb)" sb2 renv, OF fl sb2]
    fits r len
  have "\<exists>rout. dawn_read_entire_file renv fs' (Some path) (Some sb2) = Some (Inr rout)
     \<and> returned rout"
    by simp
  with wr show ?thesis by (auto simp: wout_def)
qed

text \<open>How an append to a string builder is evaluated on concrete bytes.\<close>

lemmas sb_eval = DAWN_SB_APPEND_BUF_def DAWN_DA_APPEND_MANY_def realloc_def memcpy_def
  primary_simps size_t_def SIZE_MAX_def char_type_def da_empty_def DAWN_DA_DEFAULT_CAPACITY_def
  Let_def upt_rec

text \<open>
  Claim C1: when the open, the seeks and the allocation succeed and \<^verbatim>\<open>fread\<close> returns
  fewer bytes than the size that \<^verbatim>\<open>ftell\<close> gave, with no stream error, the call
  returns true and only the bytes read are appended. The code passes \<^verbatim>\<open>f_size\<close>, not
  \<^verbatim>\<open>read_size\<close>, to \<open>DAWN_SB_APPEND_BUF\<close>. On a file of the four bytes \<^verbatim>\<open>abcd\<close>
  of which \<^verbatim>\<open>fread\<close> delivers two, the call returns true and appends four bytes: the
  two that were read, and two bytes of the temporary buffer that nothing has written
  (\<open>0xAA\<close> here).
\<close>

theorem read_short_appends_whole_buffer:
  "dawn_read_entire_file
       \<lparr>fopen_fails = False, fseek_end_fails = False, ftell_fails = False,
        fseek_set_fails = False, malloc_heap = \<lparr>grants = (\<lambda>n. True), fresh = (\<lambda>i. 0xAA)\<rparr>,
        fread_count = 2, ferror_set = False,
        realloc_heap = \<lparr>grants = (\<lambda>n. True), fresh = (\<lambda>i. 0)\<rparr>\<rparr>
       ((\<lambda>p. None)(''f'' \<mapsto> [0x61, 0x62, 0x63, 0x64])) (Some ''f'') (Some da_empty)
     = Some (Inr \<lparr>returned = True,
            content_after = Some \<lparr>length_da = 4, capacity = 16,
              items = [0x61, 0x62, 0xAA, 0xAA, 0, 0, 0, 0, 0, 0, 0, 0, 0, 0, 0, 0]\<rparr>,
            files_after = (\<lambda>p. None)(''f'' \<mapsto> [0x61, 0x62, 0x63, 0x64]),
            trace = [Fopen ''f'' ''r'', Fseek_end, Ftell, Fseek_set, Malloc 4, Fread 4, Ferror,
                     Fclose, Free]\<rparr>)
   \<and> contents \<lparr>length_da = 4, capacity = 16,
              items = [0x61, 0x62, 0xAA, 0xAA, 0, 0, 0, 0, 0, 0, 0, 0, 0, 0, 0, 0::byte]\<rparr>
     = [0x61, 0x62, 0xAA, 0xAA]"
proof -
  have loop: "append_many_loop (primary 4) 0 16 = Some 16"
    by (simp add: append_many_loop.simps primary_simps size_t_def SIZE_MAX_def)
  have app: "DAWN_SB_APPEND_BUF \<lparr>grants = (\<lambda>n. True), fresh = (\<lambda>i. 0)\<rparr> da_empty
      [0x61, 0x62, 0xAA, 0xAA] 4
    = Some (Inr \<lparr>length_da = 4, capacity = 16,
              items = [0x61, 0x62, 0xAA, 0xAA, 0, 0, 0, 0, 0, 0, 0, 0, 0, 0, 0, 0]\<rparr>)"
    by (simp add: sb_eval loop)
  show ?thesis
    by (simp add: dawn_read_entire_file_def malloc_def Let_def upt_rec app contents_def)
qed

text \<open>
  Claim C2, as stated: a write that returns true followed by a read that returns true,
  into an empty string builder, gives back the bytes written. Neither call that returns
  true has to have moved every byte:
  \<^item> a read that returns true may have been short: the file holds \<^verbatim>\<open>hi\<close>, \<^verbatim>\<open>fread\<close>
    delivers one byte with no stream error, and the builder does not hold the bytes of
    the file;
  \<^item> a write that returns true may have lost bytes: \<^verbatim>\<open>fwrite\<close> takes the two bytes of
    \<^verbatim>\<open>hi\<close>, the close stores one of them, and its result is not looked at. The read
    that follows is complete, returns true, and gives the builder one byte.
\<close>

theorem round_trip_counterexample:
  "dawn_write_entire_file \<lparr>fopen_w_fails = False, fwrite_count = 2, fclose_stored = 2\<rparr>
       (\<lambda>p. None) (Some ''f'') (Some \<lparr>length_da = 2, capacity = 2, items = [0x68, 0x69]\<rparr>)
     = Inr \<lparr>returned = True,
            content_after = Some \<lparr>length_da = 2, capacity = 2, items = [0x68, 0x69]\<rparr>,
            files_after = (\<lambda>p. None)(''f'' \<mapsto> [0x68, 0x69]),
            trace = [Fopen ''f'' ''w+'', Fwrite 2, Fclose]\<rparr>
   \<and> dawn_read_entire_file
       \<lparr>fopen_fails = False, fseek_end_fails = False, ftell_fails = False,
        fseek_set_fails = False, malloc_heap = \<lparr>grants = (\<lambda>n. True), fresh = (\<lambda>i. 0xAA)\<rparr>,
        fread_count = 1, ferror_set = False,
        realloc_heap = \<lparr>grants = (\<lambda>n. True), fresh = (\<lambda>i. 0)\<rparr>\<rparr>
       ((\<lambda>p. None)(''f'' \<mapsto> [0x68, 0x69])) (Some ''f'') (Some da_empty)
     = Some (Inr \<lparr>returned = True,
            content_after = Some \<lparr>length_da = 2, capacity = 16,
              items = [0x68, 0xAA, 0, 0, 0, 0, 0, 0, 0, 0, 0, 0, 0, 0, 0, 0]\<rparr>,
            files_after = (\<lambda>p. None)(''f'' \<mapsto> [0x68, 0x69]),
            trace = [Fopen ''f'' ''r'', Fseek_end, Ftell, Fseek_set, Malloc 2, Fread 2, Ferror,
                     Fclose, Free]\<rparr>)
   \<and> contents \<lparr>length_da = 2, capacity = 16,
              items = [0x68, 0xAA, 0, 0, 0, 0, 0, 0, 0, 0, 0, 0, 0, 0, 0, 0::byte]\<rparr>
     \<noteq> contents \<lparr>length_da = 2, capacity = 2, items = [0x68, 0x69]\<rparr>
   \<and> dawn_write_entire_file \<lparr>fopen_w_fails = False, fwrite_count = 2, fclose_stored = 1\<rparr>
       (\<lambda>p. None) (Some ''f'') (Some \<lparr>length_da = 2, capacity = 2, items = [0x68, 0x69]\<rparr>)
     = Inr \<lparr>returned = True,
            content_after = Some \<lparr>length_da = 2, capacity = 2, items = [0x68, 0x69]\<rparr>,
            files_after = (\<lambda>p. None)(''f'' \<mapsto> [0x68]),
            trace = [Fopen ''f'' ''w+'', Fwrite 2, Fclose]\<rparr>
   \<and> dawn_read_entire_file
       \<lparr>fopen_fails = False, fseek_end_fails = False, ftell_fails = False,
        fseek_set_fails = False, malloc_heap = \<lparr>grants = (\<lambda>n. True), fresh = (\<lambda>i. 0xAA)\<rparr>,
        fread_count = 1, ferror_set = False,
        realloc_heap = \<lparr>grants = (\<lambda>n. True), fresh = (\<lambda>i. 0)\<rparr>\<rparr>
       ((\<lambda>p. None)(''f'' \<mapsto> [0x68])) (Some ''f'') (Some da_empty)
     = Some (Inr \<lparr>returned = True,
            content_after = Some \<lparr>length_da = 1, capacity = 16,
              items = [0x68, 0, 0, 0, 0, 0, 0, 0, 0, 0, 0, 0, 0, 0, 0, 0]\<rparr>,
            files_after = (\<lambda>p. None)(''f'' \<mapsto> [0x68]),
            trace = [Fopen ''f'' ''r'', Fseek_end, Ftell, Fseek_set, Malloc 1, Fread 1,
                     Fclose, Free]\<rparr>)
   \<and> contents \<lparr>length_da = 1, capacity = 16,
              items = [0x68, 0, 0, 0, 0, 0, 0, 0, 0, 0, 0, 0, 0, 0, 0, 0::byte]\<rparr>
     \<noteq> contents \<lparr>length_da = 2, capacity = 2, items = [0x68, 0x69]\<rparr>"
proof -
  have loop: "append_many_loop (primary 2) 0 16 = Some 16"
    "append_many_loop (primary 1) 0 16 = Some 16"
    "append_many_loop (primary (Suc 0)) 0 16 = Some 16"
    by (simp_all add: append_many_loop.simps primary_simps size_t_def SIZE_MAX_def)
  have app: "DAWN_SB_APPEND_BUF \<lparr>grants = (\<lambda>n. True), fresh = (\<lambda>i. 0)\<rparr> da_empty [0x68, 0xAA] 2
    = Some (Inr \<lparr>length_da = 2, capacity = 16,
              items = [0x68, 0xAA, 0, 0, 0, 0, 0, 0, 0, 0, 0, 0, 0, 0, 0, 0]\<rparr>)"
    "DAWN_SB_APPEND_BUF \<lparr>grants = (\<lambda>n. True), fresh = (\<lambda>i. 0)\<rparr> da_empty [0x68] (Suc 0)
    = Some (Inr \<lparr>length_da = 1, capacity = 16,
              items = [0x68, 0, 0, 0, 0, 0, 0, 0, 0, 0, 0, 0, 0, 0, 0, 0]\<rparr>)"
    by (simp_all add: sb_eval loop)
  show ?thesis
    by (simp add: dawn_write_entire_file_def dawn_read_entire_file_def malloc_def Let_def upt_rec
        app contents_def)
qed

text \<open>
  Claim C2, amended: for every path and every string builder \<open>sb\<close>, when
  \<open>dawn_write_entire_file\<close> returns true and the close has stored every byte of \<open>sb\<close>
  in the file, and \<open>dawn_read_entire_file\<close> on the same path and a string builder of
  length 0 then returns true, and \<^verbatim>\<open>fread\<close> has delivered the whole size of the file
  (the read was not short), the builder holds exactly the bytes of \<open>sb\<close>. Empty
  contents, zero bytes and contents of 17 bytes or more are instances.
\<close>

theorem write_then_read_full:
  assumes "dawn_write_entire_file wenv fs (Some path) (Some sb) = Inr wout" and "returned wout"
    and "length_da sb \<le> SIZE_MAX" and "length_da sb \<le> fclose_stored wenv"
    and "da_wf sb2" and "length_da sb2 = 0"
    and "dawn_read_entire_file renv (files_after wout) (Some path) (Some sb2) = Some (Inr rout)"
    and "returned rout"
    and "length_da sb \<le> fread_count renv"
  shows "\<exists>sb2'. content_after rout = Some sb2' \<and> contents sb2' = contents sb
     \<and> length_da sb2' = length_da sb"
proof -
  from assms(1,2) have fits: "length_da sb \<le> length (items sb)"
    by (auto simp: dawn_write_entire_file_def Let_def split: if_splits)
  note range = assms(3)
  from fits have len: "length (contents sb) = length_da sb" by (simp add: contents_def)
  from write_true_stores [OF assms(1,2)] assms(4)
  have fl: "files_after wout path = Some (contents sb)" by (simp add: contents_def)
  have sum: "length_da sb2 + length (contents sb) \<le> SIZE_MAX"
    using assms(6) range len by simp
  from read_true_appends [OF assms(7,8) fl assms(5) sum] obtain sb2' where
    s: "content_after rout = Some sb2'"
       "length_da sb2' = length_da sb2 + length (contents sb)"
       "contents sb2' = contents sb2 @ take (fread_count renv) (contents sb)
          @ drop (fread_count renv) (map (fresh (malloc_heap renv)) [0..<length (contents sb)])"
    by blast
  from assms(6) have "contents sb2 = []" by (simp add: contents_def)
  with s(3) assms(9) len have "contents sb2' = contents sb" by simp
  with s(1,2) assms(6) len show ?thesis by simp
qed

theorem write_then_read_full_witness:
  "dawn_write_entire_file \<lparr>fopen_w_fails = False, fwrite_count = 3, fclose_stored = 3\<rparr>
       (\<lambda>p. None) (Some ''f'')
       (Some \<lparr>length_da = 3, capacity = 4, items = [0x61, 0, 0x62, 0x7F]\<rparr>)
     = Inr \<lparr>returned = True,
            content_after = Some \<lparr>length_da = 3, capacity = 4, items = [0x61, 0, 0x62, 0x7F]\<rparr>,
            files_after = (\<lambda>p. None)(''f'' \<mapsto> [0x61, 0, 0x62]),
            trace = [Fopen ''f'' ''w+'', Fwrite 3, Fclose]\<rparr>
   \<and> length_da \<lparr>length_da = 3, capacity = 4, items = [0x61, 0, 0x62, 0x7F :: byte]\<rparr> \<le> SIZE_MAX
   \<and> da_wf (da_empty :: DawnStringBuilder)
   \<and> length_da (da_empty :: DawnStringBuilder) = 0
   \<and> dawn_read_entire_file
       \<lparr>fopen_fails = False, fseek_end_fails = False, ftell_fails = False,
        fseek_set_fails = False, malloc_heap = \<lparr>grants = (\<lambda>n. True), fresh = (\<lambda>i. 0xAA)\<rparr>,
        fread_count = 3, ferror_set = False,
        realloc_heap = \<lparr>grants = (\<lambda>n. True), fresh = (\<lambda>i. 0)\<rparr>\<rparr>
       ((\<lambda>p. None)(''f'' \<mapsto> [0x61, 0, 0x62])) (Some ''f'') (Some da_empty)
     = Some (Inr \<lparr>returned = True,
            content_after = Some \<lparr>length_da = 3, capacity = 16,
              items = [0x61, 0, 0x62, 0, 0, 0, 0, 0, 0, 0, 0, 0, 0, 0, 0, 0]\<rparr>,
            files_after = (\<lambda>p. None)(''f'' \<mapsto> [0x61, 0, 0x62]),
            trace = [Fopen ''f'' ''r'', Fseek_end, Ftell, Fseek_set, Malloc 3, Fread 3,
                     Fclose, Free]\<rparr>)
   \<and> contents \<lparr>length_da = 3, capacity = 16,
              items = [0x61, 0, 0x62, 0, 0, 0, 0, 0, 0, 0, 0, 0, 0, 0, 0, 0::byte]\<rparr>
     = contents \<lparr>length_da = 3, capacity = 4, items = [0x61, 0, 0x62, 0x7F]\<rparr>"
proof -
  let ?wenv = "\<lparr>fopen_w_fails = False, fwrite_count = 3, fclose_stored = 3\<rparr>"
  let ?sb = "\<lparr>length_da = 3, capacity = 4, items = [0x61, 0, 0x62, 0x7F::byte]\<rparr>"
  let ?fs' = "(\<lambda>p. None)(''f'' \<mapsto> [0x61, 0, 0x62::byte])"
  let ?wout = "\<lparr>returned = True, content_after = Some ?sb, files_after = ?fs',
            trace = [Fopen ''f'' ''w+'', Fwrite 3, Fclose]\<rparr>"
  let ?renv = "\<lparr>fopen_fails = False, fseek_end_fails = False, ftell_fails = False,
        fseek_set_fails = False, malloc_heap = \<lparr>grants = (\<lambda>n. True), fresh = (\<lambda>i. 0xAA)\<rparr>,
        fread_count = 3, ferror_set = False,
        realloc_heap = \<lparr>grants = (\<lambda>n. True), fresh = (\<lambda>i. 0)\<rparr>\<rparr>"
  let ?sb2' = "\<lparr>length_da = 3, capacity = 16,
              items = [0x61, 0, 0x62, 0, 0, 0, 0, 0, 0, 0, 0, 0, 0, 0, 0, 0::byte]\<rparr>"
  let ?rout = "\<lparr>returned = True, content_after = Some ?sb2', files_after = ?fs',
            trace = [Fopen ''f'' ''r'', Fseek_end, Ftell, Fseek_set, Malloc 3, Fread 3,
                     Fclose, Free]\<rparr>"
  have w: "dawn_write_entire_file ?wenv (\<lambda>p. None) (Some ''f'') (Some ?sb) = Inr ?wout"
    by (simp add: dawn_write_entire_file_def Let_def)
  have wt: "returned ?wout" by simp
  have wf: "length_da ?sb \<le> SIZE_MAX" by (simp add: SIZE_MAX_def)
  have st: "length_da ?sb \<le> fclose_stored ?wenv" by simp
  have e: "da_wf (da_empty :: DawnStringBuilder)" "length_da (da_empty :: DawnStringBuilder) = 0"
    by (simp_all add: da_wf_def da_empty_def)
  have loop: "append_many_loop (primary 3) 0 16 = Some 16"
    by (simp add: append_many_loop.simps primary_simps size_t_def SIZE_MAX_def)
  have app: "DAWN_SB_APPEND_BUF \<lparr>grants = (\<lambda>n. True), fresh = (\<lambda>i. 0)\<rparr> da_empty
      [0x61, 0, 0x62] 3 = Some (Inr ?sb2')"
    by (simp add: sb_eval loop)
  have r: "dawn_read_entire_file ?renv (files_after ?wout) (Some ''f'') (Some da_empty)
      = Some (Inr ?rout)"
    by (simp add: dawn_read_entire_file_def malloc_def Let_def upt_rec app)
  have rt: "returned ?rout" by simp
  have full: "length_da ?sb \<le> fread_count ?renv" by simp
  from write_then_read_full [OF w wt wf st e r rt full]
  have "contents ?sb2' = contents ?sb" by simp
  with w wf e r show ?thesis by simp
qed

text \<open>
  Claim C4: for a path and a string builder that are not null, whenever
  \<open>dawn_read_entire_file\<close> returns false the string builder is as it was before the
  call: its length, its capacity and its block. The call does return false when the file
  cannot be opened (a path with no file among them), when a seek or \<^verbatim>\<open>ftell\<close> fails,
  when the allocation fails, and when a short read comes with a stream error.
\<close>

theorem read_failure_keeps_builder:
  "(\<forall>out. dawn_read_entire_file renv fs (Some path) (Some sb) = Some (Inr out) \<and> \<not> returned out
       \<longrightarrow> content_after out = Some sb)
   \<and> (fopen_fails renv \<or> fs path = None \<longrightarrow>
       (\<exists>out. dawn_read_entire_file renv fs (Some path) (Some sb) = Some (Inr out)
          \<and> \<not> returned out \<and> content_after out = Some sb))
   \<and> (\<forall>bytes. \<not> fopen_fails renv \<and> fs path = Some bytes
         \<and> (fseek_end_fails renv \<or> ftell_fails renv \<or> fseek_set_fails renv
            \<or> \<not> grants (malloc_heap renv) (length bytes)
            \<or> (fread_count renv < length bytes \<and> ferror_set renv)) \<longrightarrow>
       (\<exists>out. dawn_read_entire_file renv fs (Some path) (Some sb) = Some (Inr out)
          \<and> \<not> returned out \<and> content_after out = Some sb))"
proof (intro conjI allI impI)
  fix out
  assume "dawn_read_entire_file renv fs (Some path) (Some sb) = Some (Inr out) \<and> \<not> returned out"
  then show "content_after out = Some sb" using read_false_unchanged by blast
next
  assume "fopen_fails renv \<or> fs path = None"
  then show "\<exists>out. dawn_read_entire_file renv fs (Some path) (Some sb) = Some (Inr out)
          \<and> \<not> returned out \<and> content_after out = Some sb"
    by (rule read_fails_no_file)
next
  fix bytes
  assume "\<not> fopen_fails renv \<and> fs path = Some bytes
         \<and> (fseek_end_fails renv \<or> ftell_fails renv \<or> fseek_set_fails renv
            \<or> \<not> grants (malloc_heap renv) (length bytes)
            \<or> (fread_count renv < length bytes \<and> ferror_set renv))"
  then show "\<exists>out. dawn_read_entire_file renv fs (Some path) (Some sb) = Some (Inr out)
          \<and> \<not> returned out \<and> content_after out = Some sb"
    using read_fails_later [of renv fs path bytes sb] by blast
qed

theorem read_failure_keeps_builder_witness:
  "dawn_read_entire_file
       \<lparr>fopen_fails = False, fseek_end_fails = False, ftell_fails = False,
        fseek_set_fails = False, malloc_heap = \<lparr>grants = (\<lambda>n. True), fresh = (\<lambda>i. 0xAA)\<rparr>,
        fread_count = 4, ferror_set = False,
        realloc_heap = \<lparr>grants = (\<lambda>n. True), fresh = (\<lambda>i. 0)\<rparr>\<rparr>
       (\<lambda>p. None) (Some ''missing'')
       (Some \<lparr>length_da = 2, capacity = 4, items = [0x68, 0x69, 0, 0]\<rparr>)
     = Some (Inr \<lparr>returned = False,
            content_after = Some \<lparr>length_da = 2, capacity = 4, items = [0x68, 0x69, 0, 0]\<rparr>,
            files_after = (\<lambda>p. None),
            trace = [Fopen ''missing'' ''r'',
                     Fprintf_stderr (''Failed to open file: '' @ ''missing'' @ [CHR 0x0A])]\<rparr>)
   \<and> dawn_read_entire_file
       \<lparr>fopen_fails = False, fseek_end_fails = False, ftell_fails = False,
        fseek_set_fails = False, malloc_heap = \<lparr>grants = (\<lambda>n. True), fresh = (\<lambda>i. 0xAA)\<rparr>,
        fread_count = 1, ferror_set = True,
        realloc_heap = \<lparr>grants = (\<lambda>n. True), fresh = (\<lambda>i. 0)\<rparr>\<rparr>
       ((\<lambda>p. None)(''f'' \<mapsto> [0x61, 0x62])) (Some ''f'')
       (Some \<lparr>length_da = 2, capacity = 4, items = [0x68, 0x69, 0, 0]\<rparr>)
     = Some (Inr \<lparr>returned = False,
            content_after = Some \<lparr>length_da = 2, capacity = 4, items = [0x68, 0x69, 0, 0]\<rparr>,
            files_after = (\<lambda>p. None)(''f'' \<mapsto> [0x61, 0x62]),
            trace = [Fopen ''f'' ''r'', Fseek_end, Ftell, Fseek_set, Malloc 2, Fread 2, Ferror,
                     Fprintf_stderr (''There was an error while reading '' @ ''f'' @ [CHR 0x0A]),
                     Fclose, Free]\<rparr>)"
proof -
  let ?renv = "\<lparr>fopen_fails = False, fseek_end_fails = False, ftell_fails = False,
        fseek_set_fails = False, malloc_heap = \<lparr>grants = (\<lambda>n. True), fresh = (\<lambda>i. 0xAA)\<rparr>,
        fread_count = 4, ferror_set = False,
        realloc_heap = \<lparr>grants = (\<lambda>n. True), fresh = (\<lambda>i. 0)\<rparr>\<rparr>"
  let ?renv' = "\<lparr>fopen_fails = False, fseek_end_fails = False, ftell_fails = False,
        fseek_set_fails = False, malloc_heap = \<lparr>grants = (\<lambda>n. True), fresh = (\<lambda>i. 0xAA)\<rparr>,
        fread_count = 1, ferror_set = True,
        realloc_heap = \<lparr>grants = (\<lambda>n. True), fresh = (\<lambda>i. 0)\<rparr>\<rparr>"
  let ?sb = "\<lparr>length_da = 2, capacity = 4, items = [0x68, 0x69, 0, 0::byte]\<rparr>"
  let ?fs = "(\<lambda>p. None)(''f'' \<mapsto> [0x61, 0x62::byte])"
  have a: "dawn_read_entire_file ?renv (\<lambda>p. None) (Some ''missing'') (Some ?sb)
     = Some (Inr \<lparr>returned = False, content_after = Some ?sb, files_after = (\<lambda>p. None),
            trace = [Fopen ''missing'' ''r'',
                     Fprintf_stderr (''Failed to open file: '' @ ''missing'' @ [CHR 0x0A])]\<rparr>)"
    by (simp add: dawn_read_entire_file_def malloc_def Let_def upt_rec)
  have b: "dawn_read_entire_file ?renv' ?fs (Some ''f'') (Some ?sb)
     = Some (Inr \<lparr>returned = False, content_after = Some ?sb, files_after = ?fs,
            trace = [Fopen ''f'' ''r'', Fseek_end, Ftell, Fseek_set, Malloc 2, Fread 2, Ferror,
                     Fprintf_stderr (''There was an error while reading '' @ ''f'' @ [CHR 0x0A]),
                     Fclose, Free]\<rparr>)"
    by (simp add: dawn_read_entire_file_def malloc_def Let_def upt_rec)
  have "content_after \<lparr>returned = False, content_after = Some ?sb, files_after = (\<lambda>p. None),
            trace = [Fopen ''missing'' ''r'',
                     Fprintf_stderr (''Failed to open file: '' @ ''missing'' @ [CHR 0x0A])]\<rparr>
        = Some ?sb"
    using read_failure_keeps_builder [of ?renv "\<lambda>p. None" "''missing''" ?sb] a by simp
  with a b show ?thesis by simp
qed

text \<open>
  Claim C9: when the path or the content pointer is null, \<open>dawn_read_entire_file\<close> and
  \<open>dawn_write_entire_file\<close> return false at once: the trace, which records every call
  of the C library on a file and every diagnostic, is empty, and the files and the
  content are unchanged.
\<close>

theorem null_arguments_silent:
  assumes "filepath = None \<or> content = None"
  shows "dawn_read_entire_file renv fs filepath content
           = Some (Inr \<lparr>returned = False, content_after = content, files_after = fs, trace = []\<rparr>)
     \<and> dawn_write_entire_file wenv fs filepath content
           = Inr \<lparr>returned = False, content_after = content, files_after = fs, trace = []\<rparr>"
  using assms
  by (cases filepath; cases content)
     (simp_all add: dawn_read_entire_file_def dawn_write_entire_file_def)

theorem null_arguments_silent_witness:
  "dawn_read_entire_file
       \<lparr>fopen_fails = False, fseek_end_fails = False, ftell_fails = False,
        fseek_set_fails = False, malloc_heap = \<lparr>grants = (\<lambda>n. True), fresh = (\<lambda>i. 0xAA)\<rparr>,
        fread_count = 4, ferror_set = False,
        realloc_heap = \<lparr>grants = (\<lambda>n. True), fresh = (\<lambda>i. 0)\<rparr>\<rparr>
       ((\<lambda>p. None)(''f'' \<mapsto> [0x61, 0x62])) (Some ''f'') None
     = Some (Inr \<lparr>returned = False, content_after = None,
            files_after = (\<lambda>p. None)(''f'' \<mapsto> [0x61, 0x62]), trace = []\<rparr>)
   \<and> dawn_write_entire_file \<lparr>fopen_w_fails = False, fwrite_count = 3, fclose_stored = 3\<rparr>
       ((\<lambda>p. None)(''f'' \<mapsto> [0x61, 0x62])) None
       (Some \<lparr>length_da = 2, capacity = 4, items = [0x68, 0x69, 0, 0]\<rparr>)
     = Inr \<lparr>returned = False,
            content_after = Some \<lparr>length_da = 2, capacity = 4, items = [0x68, 0x69, 0, 0]\<rparr>,
            files_after = (\<lambda>p. None)(''f'' \<mapsto> [0x61, 0x62]), trace = []\<rparr>"
proof -
  have a: "Some ''f'' = None \<or> (None :: DawnStringBuilder option) = None" by simp
  have b: "(None :: string option) = None
      \<or> Some \<lparr>length_da = 2, capacity = 4, items = [0x68, 0x69, 0, 0::byte]\<rparr> = None" by simp
  from null_arguments_silent [OF a] null_arguments_silent [OF b] show ?thesis by blast
qed

text \<open>
  Claim C10: for a path and a content that are not null, \<open>dawn_write_entire_file\<close>
  leaves the content as it was (length, capacity and every byte of the block), whatever
  it returns; and it does return for every content whose length is within its block.
\<close>

theorem write_keeps_content:
  "(\<forall>out. dawn_write_entire_file wenv fs (Some path) (Some sb) = Inr out \<longrightarrow>
       content_after out = Some sb)
   \<and> (length_da sb \<le> length (items sb) \<longrightarrow>
       (\<exists>out. dawn_write_entire_file wenv fs (Some path) (Some sb) = Inr out))"
  by (auto simp: dawn_write_entire_file_def Let_def split: if_splits)

theorem write_keeps_content_witness:
  "dawn_write_entire_file \<lparr>fopen_w_fails = False, fwrite_count = 1, fclose_stored = 1\<rparr> (\<lambda>p. None) (Some ''f'')
       (Some \<lparr>length_da = 2, capacity = 4, items = [0x68, 0x69, 0, 0]\<rparr>)
     = Inr \<lparr>returned = False,
            content_after = Some \<lparr>length_da = 2, capacity = 4, items = [0x68, 0x69, 0, 0]\<rparr>,
            files_after = (\<lambda>p. None)(''f'' \<mapsto> [0x68]),
            trace = [Fopen ''f'' ''w+'', Fwrite 2,
                     Fprintf_stderr (''ERROR: There was an error when writing content to ''
                                     @ ''f'' @ [CHR 0x0A]),
                     Fclose]\<rparr>
   \<and> length_da \<lparr>length_da = 2, capacity = 4, items = [0x68, 0x69, 0, 0::byte]\<rparr>
       \<le> length (items \<lparr>length_da = 2, capacity = 4, items = [0x68, 0x69, 0, 0::byte]\<rparr>)
   \<and> (\<exists>out. dawn_write_entire_file \<lparr>fopen_w_fails = False, fwrite_count = 1, fclose_stored = 1\<rparr> (\<lambda>p. None)
         (Some ''f'') (Some \<lparr>length_da = 2, capacity = 4, items = [0x68, 0x69, 0, 0]\<rparr>) = Inr out
        \<and> content_after out = Some \<lparr>length_da = 2, capacity = 4, items = [0x68, 0x69, 0, 0]\<rparr>)"
proof -
  let ?wenv = "\<lparr>fopen_w_fails = False, fwrite_count = 1, fclose_stored = 1\<rparr>"
  let ?sb = "\<lparr>length_da = 2, capacity = 4, items = [0x68, 0x69, 0, 0::byte]\<rparr>"
  have run: "dawn_write_entire_file ?wenv (\<lambda>p. None) (Some ''f'') (Some ?sb)
     = Inr \<lparr>returned = False, content_after = Some ?sb,
            files_after = (\<lambda>p. None)(''f'' \<mapsto> [0x68]),
            trace = [Fopen ''f'' ''w+'', Fwrite 2,
                     Fprintf_stderr (''ERROR: There was an error when writing content to ''
                                     @ ''f'' @ [CHR 0x0A]),
                     Fclose]\<rparr>"
    by (simp add: dawn_write_entire_file_def Let_def)
  have fits: "length_da ?sb \<le> length (items ?sb)" by simp
  from write_keeps_content [of ?wenv "\<lambda>p. None" "''f''" ?sb] fits
  have "\<exists>out. dawn_write_entire_file ?wenv (\<lambda>p. None) (Some ''f'') (Some ?sb) = Inr out
        \<and> content_after out = Some ?sb"
    by blast
  with run fits show ?thesis by blast
qed

end
